theory Spec2Isabelle
  imports Main "HOL-Library.AList"
begin

section \<open>Strings as organiser.py uses them\<close>

text \<open>
  Python strings are modelled as \<^typ>\<open>string\<close>, a character being read as a code point
  below 256. On these code points \<open>str.lower\<close>, \<open>str.isspace\<close> and the classes
  \<open>\\w\<close> and \<open>\\s\<close> of \<open>re\<close> (str patterns are Unicode-aware) are as follows.
\<close>

definition py_lower_char :: "char \<Rightarrow> char" where
  "py_lower_char c =
     (let n = (of_char c :: nat)
      in if (65 \<le> n \<and> n \<le> 90) \<or> (192 \<le> n \<and> n \<le> 214) \<or> (216 \<le> n \<and> n \<le> 222)
         then char_of (n + 32) else c)"

definition lower :: "string \<Rightarrow> string" where
  "lower s = map py_lower_char s"

definition isspace :: "char \<Rightarrow> bool" where
  "isspace c =
     (let n = (of_char c :: nat)
      in (9 \<le> n \<and> n \<le> 13) \<or> (28 \<le> n \<and> n \<le> 32) \<or> n = 133 \<or> n = 160)"

definition isword :: "char \<Rightarrow> bool" where
  "isword c =
     (let n = (of_char c :: nat)
      in (48 \<le> n \<and> n \<le> 57) \<or> (65 \<le> n \<and> n \<le> 90) \<or> n = 95 \<or> (97 \<le> n \<and> n \<le> 122)
         \<or> n = 170 \<or> n = 178 \<or> n = 179 \<or> n = 181 \<or> n = 185 \<or> n = 186
         \<or> (188 \<le> n \<and> n \<le> 190) \<or> (192 \<le> n \<and> n \<le> 214) \<or> (216 \<le> n \<and> n \<le> 246)
         \<or> 248 \<le> n)"

text \<open>\<open>re.sub(r'[^\\w\\s-]', '', s)\<close>: every character that is neither a word character,
  nor whitespace, nor a hyphen is removed.\<close>

definition re_sub_clean :: "string \<Rightarrow> string" where
  "re_sub_clean s = filter (\<lambda>c. isword c \<or> isspace c \<or> c = CHR ''-'') s"

text \<open>\<open>s.replace(a, b)\<close> for single characters \<open>a\<close> and \<open>b\<close>.\<close>

definition replace_char :: "char \<Rightarrow> char \<Rightarrow> string \<Rightarrow> string" where
  "replace_char a b s = map (\<lambda>c. if c = a then b else c) s"

text \<open>\<open>s.strip()\<close>: leading and trailing whitespace removed.\<close>

definition strip :: "string \<Rightarrow> string" where
  "strip s = rev (dropWhile isspace (rev (dropWhile isspace s)))"

fun startswith :: "string \<Rightarrow> string \<Rightarrow> bool" where
  "startswith s [] = True"
| "startswith [] (p # ps) = False"
| "startswith (c # cs) (p # ps) = (c = p \<and> startswith cs ps)"

definition endswith :: "string \<Rightarrow> string \<Rightarrow> bool" where
  "endswith s suf = startswith (rev s) (rev suf)"

text \<open>\<open>sub in s\<close> on strings.\<close>

fun contains :: "string \<Rightarrow> string \<Rightarrow> bool" where
  "contains [] sub = (sub = [])"
| "contains (c # cs) sub = (startswith (c # cs) sub \<or> contains cs sub)"

text \<open>\<open>str(n)\<close> for a non-negative integer: decimal digits, no leading zero.\<close>

definition digit_char :: "nat \<Rightarrow> char" where
  "digit_char d = char_of (48 + d)"

fun str_nat :: "nat \<Rightarrow> string" where
  "str_nat n = (if n < 10 then [digit_char n] else str_nat (n div 10) @ [digit_char (n mod 10)])"

declare str_nat.simps [simp del]

text \<open>
  \<open>PurePath.suffix\<close> of a file name: the part from the last dot on, when that dot is
  neither the first nor the last character; otherwise the empty string.
\<close>

fun rfind_dot :: "string \<Rightarrow> nat option" where
  "rfind_dot [] = None"
| "rfind_dot (c # cs) =
     (case rfind_dot cs of
        Some i \<Rightarrow> Some (Suc i)
      | None \<Rightarrow> if c = CHR ''.'' then Some 0 else None)"

definition suffix :: "string \<Rightarrow> string" where
  "suffix name =
     (case rfind_dot name of
        None \<Rightarrow> []
      | Some i \<Rightarrow> if 0 < i \<and> i + 1 < length name then drop i name else [])"

text \<open>
  \<open>os.path.splitext(name)[1]\<close> of a file name without separators: the part from the
  last dot on, when a character other than a dot comes before that dot.
\<close>

definition splitext_ext :: "string \<Rightarrow> string" where
  "splitext_ext name =
     (case rfind_dot name of
        None \<Rightarrow> []
      | Some i \<Rightarrow> if \<exists>c \<in> set (take i name). c \<noteq> CHR ''.'' then drop i name else [])"

section \<open>Configuration\<close>

definition MAX_RETRIES :: nat where "MAX_RETRIES = 3"
definition RETRY_DELAY :: nat where "RETRY_DELAY = 10"
definition BATCH_SIZE :: nat where "BATCH_SIZE = 10"
definition PROCESSED_SUFFIX :: string where "PROCESSED_SUFFIX = ''_DESC''"
definition IMAGE_EXTENSIONS :: "string list" where
  "IMAGE_EXTENSIONS = [''.png'', ''.jpg'', ''.jpeg'', ''.webp'']"
definition ARCHIVE_NAME :: string where "ARCHIVE_NAME = ''Organized_Archive''"
definition FOLDERS_NAME :: string where "FOLDERS_NAME = ''Folders''"
definition CONFIG_NAME :: string where "CONFIG_NAME = ''.file_organizer_config.txt''"

section \<open>The extension map\<close>

text \<open>
  The extension map is a Python dict from category name to a list of extensions; the
  dict keeps insertion order, and the classification loop depends on it, so the model is
  an association list in that order.
\<close>

type_synonym ext_map = "(string \<times> string list) list"

definition default_map :: ext_map where
  "default_map =
     [(''Images'', [''.jpg'', ''.jpeg'', ''.png'', ''.gif'', ''.ico'', ''.webp'', ''.tiff'']),
      (''Documents'', [''.pdf'', ''.docx'', ''.doc'', ''.txt'', ''.xlsx'', ''.pptx'', ''.csv'',
                       ''.epub'', ''.odt'']),
      (''Installers'', [''.exe'', ''.msi'', ''.dmg'', ''.pkg'']),
      (''Archives'', [''.zip'', ''.rar'', ''.7z'', ''.tar'', ''.gz'']),
      (''Code'', [''.py'', ''.js'', ''.html'', ''.css'', ''.md'', ''.json'', ''.log'']),
      (''Audio'', [''.mp3'', ''.wav'', ''.aac'', ''.flac'']),
      (''Video'', [''.mp4'', ''.mov'', ''.mkv'', ''.avi'']),
      (''Exclusions'', [''.temp'', ''.lock'', ''README.md'', ''desktop.ini''])]"

text \<open>The file \<open>extension_map.json\<close>: absent, unreadable as JSON, or holding a map.\<close>

datatype map_file = Absent | Invalid | Stored ext_map

text \<open>What happens when the map is written: \<open>open(..., 'w')\<close> may fail, leaving the file
  as it was, or \<open>json.dump\<close> may fail after the file has been truncated.\<close>

datatype write_outcome = Written | OpenFailed | DumpFailed

definition write_map :: "write_outcome \<Rightarrow> ext_map \<Rightarrow> map_file \<Rightarrow> map_file" where
  "write_map w m file =
     (case w of Written \<Rightarrow> Stored m | OpenFailed \<Rightarrow> file | DumpFailed \<Rightarrow> Invalid)"

text \<open>\<open>destination_folder\<close> is a \<open>str\<close>, or the \<open>Path\<close> \<open>Code_Projects/<folder>\<close>.\<close>

datatype dest = Name string | CodeProject string

datatype log_event =
    MapUpdated string string
  | MapWriteFatal
  | ExtAgentError nat
  | ExtAgentUnexpected
  | CodeAnalysisFailed string
  | ImageAgentError nat
  | RetryAttempt string
  | RetrySuccess string
  | RetryFailed string
  | RestoreFatal
  | SortingStart
  | DirNotFound
  | MovedFolder string
  | FolderMoveError string
  | Excluded string
  | Recent string
  | Processing string
  | ClassifiedAs string
  | Moved string dest
  | MoveError string
  | SortingComplete nat nat
  | RenamerStart
  | RenamerTargetMissing
  | RenamerFound nat
  | RenamerComplete nat

text \<open>\<open>ext_map[k].append(e)\<close>: the list of the entry with key \<open>k\<close> grows at its end.\<close>

fun append_ext :: "string \<Rightarrow> string \<Rightarrow> ext_map \<Rightarrow> ext_map" where
  "append_ext k e [] = []"
| "append_ext k e ((k', es) # m) =
     (if k' = k then (k', es @ [e]) # m else (k', es) # append_ext k e m)"

text \<open>\<open>ext_map[k]\<close> for a key that is present (the source indexes only after inserting it).\<close>

definition cat_list :: "ext_map \<Rightarrow> string \<Rightarrow> string list" where
  "cat_list m k = (case map_of m k of Some es \<Rightarrow> es | None \<Rightarrow> [])"

definition safe_name :: "string \<Rightarrow> string" where
  "safe_name folder_name = replace_char CHR '' '' CHR ''_'' (re_sub_clean folder_name)"

text \<open>
  \<open>update_extension_map\<close>: the arguments are the outcome of writing a given map to the
  map file, the map in memory, the map file, the extension and the folder name. It
  returns the map in memory, the map file and the messages logged.
\<close>

definition update_extension_map ::
  "(ext_map \<Rightarrow> write_outcome) \<Rightarrow> ext_map \<Rightarrow> map_file \<Rightarrow> string \<Rightarrow> string
     \<Rightarrow> ext_map \<times> map_file \<times> log_event list"
where
  "update_extension_map wr ext_map file extension folder_name =
     (let safe_folder_name = safe_name folder_name;
          extension = lower extension;
          ext_map = (if map_of ext_map safe_folder_name = None
                     then ext_map @ [(safe_folder_name, [])] else ext_map)
      in if extension \<notin> set (cat_list ext_map safe_folder_name)
         then (let ext_map = append_ext safe_folder_name extension ext_map
               in (ext_map, write_map (wr ext_map) ext_map file,
                   [MapUpdated extension safe_folder_name]
                   @ (if wr ext_map = Written then [] else [MapWriteFatal])))
         else (ext_map, file, []))"

section \<open>The organize run\<close>

text \<open>
  What the oracle answers to one request: \<open>APIError\<close> raised, any other exception raised
  (also by \<open>json.loads\<close> and by the validation of the answer against its schema), or an
  answer that passed validation.
\<close>

datatype 'a reply = ApiError | OtherError | Reply 'a

datatype call =
    ExtCall string
  | CodeCall string
  | BatchCall "string list"
  | SingleCall string

datatype move = FileMove string dest | FolderMove string

datatype error = MkdirFailed | StatFailed

text \<open>An entry of the downloads directory; \<open>e_mtime\<close> is \<open>None\<close> when \<open>stat\<close> raises.
  Times are naive local datetimes, counted in microseconds.\<close>

record entry =
  e_name :: string
  e_is_dir :: bool
  e_mtime :: "int option"

text \<open>
  Everything outside the program. The oracle's answer may depend on the number of
  requests made before in the run, so that any sequence of answers is covered.
\<close>

record org_env =
  downloads_exists :: bool
  listing :: "entry list"
  now :: int
  client :: bool
  ext_agent :: "nat \<Rightarrow> string \<Rightarrow> string list \<Rightarrow> (string \<times> bool) reply"
  code_agent :: "nat \<Rightarrow> string \<Rightarrow> (string \<times> string) reply"
  readable :: "string \<Rightarrow> bool"
  mkdir_ok :: "string list \<Rightarrow> bool"
  move_ok :: "string \<Rightarrow> string list \<Rightarrow> bool"
  map_write :: "ext_map \<Rightarrow> write_outcome"

record org_state =
  EXT_MAP :: ext_map
  map_on_disk :: map_file
  files_processed :: nat
  folders_processed :: nat
  moves :: "move list"
  calls :: "call list"
  slept :: nat
  logs :: "log_event list"

definition log_message :: "log_event \<Rightarrow> org_state \<Rightarrow> org_state" where
  "log_message ev st = st\<lparr>logs := logs st @ [ev]\<rparr>"

definition record_call :: "call \<Rightarrow> org_state \<Rightarrow> org_state" where
  "record_call c st = st\<lparr>calls := calls st @ [c]\<rparr>"

definition sleep :: "nat \<Rightarrow> org_state \<Rightarrow> org_state" where
  "sleep n st = st\<lparr>slept := slept st + n\<rparr>"

definition load_extension_map ::
  "org_env \<Rightarrow> map_file \<Rightarrow> error + ext_map \<times> map_file" where
  "load_extension_map env file =
     (if \<not> mkdir_ok env [ARCHIVE_NAME] then Inl MkdirFailed
      else case file of
             Stored m \<Rightarrow> Inr (m, file)
           | Absent \<Rightarrow> Inr (default_map, write_map (map_write env default_map) default_map file)
           | Invalid \<Rightarrow> Inr (default_map, file))"

text \<open>The retry loop of \<open>get_folder_recommendation\<close>.\<close>

function gfr_loop ::
  "org_env \<Rightarrow> string \<Rightarrow> string list \<Rightarrow> nat \<Rightarrow> org_state \<Rightarrow> (string \<times> bool) option \<times> org_state"
where
  "gfr_loop env extension existing_folders retries st =
     (if retries < MAX_RETRIES
      then (case ext_agent env (length (calls st)) extension existing_folders of
              Reply r \<Rightarrow> (Some r, record_call (ExtCall extension) st)
            | ApiError \<Rightarrow>
                gfr_loop env extension existing_folders (retries + 1)
                  (sleep RETRY_DELAY
                    (log_message (ExtAgentError (retries + 1))
                      (record_call (ExtCall extension) st)))
            | OtherError \<Rightarrow>
                (None, log_message ExtAgentUnexpected (record_call (ExtCall extension) st)))
      else (None, st))"
  by pat_completeness auto
termination
  by (relation "measure (\<lambda>(env, extension, existing_folders, retries, st). MAX_RETRIES - retries)")
     auto

declare gfr_loop.simps [simp del]

definition get_folder_recommendation ::
  "org_env \<Rightarrow> string \<Rightarrow> string list \<Rightarrow> org_state \<Rightarrow> (string \<times> bool) option \<times> org_state"
where
  "get_folder_recommendation env extension existing_folders st =
     (if \<not> client env then (None, st) else gfr_loop env extension existing_folders 0 st)"

text \<open>\<open>analyze_code_content\<close>: one request; the loop of the source returns or raises in
  its first iteration.\<close>

definition analyze_code_content ::
  "org_env \<Rightarrow> string \<Rightarrow> org_state \<Rightarrow> (string \<times> string) option \<times> org_state" where
  "analyze_code_content env name st =
     (if \<not> client env then (None, st)
      else if \<not> readable env name then (None, log_message (CodeAnalysisFailed name) st)
      else case code_agent env (length (calls st)) name of
             Reply r \<Rightarrow> (Some r, record_call (CodeCall name) st)
           | ApiError \<Rightarrow> (None, log_message (CodeAnalysisFailed name) (record_call (CodeCall name) st))
           | OtherError \<Rightarrow> (None, log_message (CodeAnalysisFailed name) (record_call (CodeCall name) st)))"

text \<open>Step 3: the first category, in the order of the map, whose list holds the extension.\<close>

fun rule_match :: "ext_map \<Rightarrow> string \<Rightarrow> string option" where
  "rule_match [] ext = None"
| "rule_match ((category, extensions) # m) ext =
     (if ext \<in> set extensions then Some category else rule_match m ext)"

definition dest_path :: "dest \<Rightarrow> string list" where
  "dest_path d =
     (case d of Name f \<Rightarrow> [ARCHIVE_NAME, f] | CodeProject f \<Rightarrow> [ARCHIVE_NAME, ''Code_Projects'', f])"

text \<open>Step 6: an empty \<open>str\<close> is falsy and nothing is moved; the directory is made here
  for a \<open>str\<close> only.\<close>

definition final_move ::
  "org_env \<Rightarrow> entry \<Rightarrow> dest \<Rightarrow> org_state \<Rightarrow> (error \<times> org_state) + org_state" where
  "final_move env item destination_folder st =
     (if destination_folder = Name [] then Inr st
      else if (case destination_folder of Name f \<Rightarrow> \<not> mkdir_ok env [ARCHIVE_NAME, f]
                                        | CodeProject f \<Rightarrow> False)
      then Inl (MkdirFailed, st)
      else if move_ok env (e_name item) (dest_path destination_folder)
      then Inr ((log_message (Moved (e_name item) destination_folder) st)
                 \<lparr>files_processed := files_processed st + 1,
                  moves := moves st @ [FileMove (e_name item) destination_folder]\<rparr>)
      else Inr (log_message (MoveError (e_name item)) st))"

text \<open>Step 5: the extension has no rule.\<close>

definition escalate ::
  "org_env \<Rightarrow> string \<Rightarrow> string list \<Rightarrow> org_state \<Rightarrow> string \<times> org_state" where
  "escalate env ext existing_categories st =
     (case get_folder_recommendation env ext existing_categories st of
        (Some (suggested_folder_name, is_new_category), st1) \<Rightarrow>
          if suggested_folder_name \<noteq> []
          then (case update_extension_map (map_write env) (EXT_MAP st1) (map_on_disk st1)
                       ext suggested_folder_name of
                  (m, file, msgs) \<Rightarrow>
                    (suggested_folder_name,
                     st1\<lparr>EXT_MAP := m, map_on_disk := file, logs := logs st1 @ msgs\<rparr>))
          else (''Unsorted_Agent_Failed'', st1)
      | (None, st1) \<Rightarrow> (''Unsorted_Agent_Failed'', st1))"

text \<open>Steps 3 to 6 for a file that passed the exclusion and time checks.\<close>

definition classify_and_move ::
  "org_env \<Rightarrow> string list \<Rightarrow> entry \<Rightarrow> org_state \<Rightarrow> (error \<times> org_state) + org_state" where
  "classify_and_move env existing_categories item st0 =
     (let st = log_message (Processing (e_name item)) st0;
          ext = lower (suffix (e_name item))
      in case rule_match (EXT_MAP st) ext of
           Some category \<Rightarrow>
             if category = ''Code''
             then (case analyze_code_content env (e_name item) st of
                     (Some (project_name, suggested_folder), st1) \<Rightarrow>
                       if suggested_folder \<noteq> []
                       then (let semantic_folder = safe_name suggested_folder
                             in if \<not> mkdir_ok env [ARCHIVE_NAME, ''Code_Projects'', semantic_folder]
                                then Inl (MkdirFailed, st1)
                                else final_move env item (CodeProject semantic_folder)
                                       (log_message (ClassifiedAs semantic_folder) st1))
                       else final_move env item (Name category) st1
                   | (None, st1) \<Rightarrow> final_move env item (Name category) st1)
             else final_move env item (Name category) st
         | None \<Rightarrow>
             (case escalate env ext existing_categories st of
                (destination_folder, st1) \<Rightarrow> final_move env item (Name destination_folder) st1))"

definition DAY :: int where "DAY = 24 * 3600 * 1000000"

text \<open>The body of the loop over the downloads directory.\<close>

definition process_item ::
  "org_env \<Rightarrow> bool \<Rightarrow> string list \<Rightarrow> string list \<Rightarrow> entry \<Rightarrow> org_state
     \<Rightarrow> (error \<times> org_state) + org_state"
where
  "process_item env process_all_files exclusion_list existing_categories item st =
     (if e_is_dir item
      then (if e_name item = ARCHIVE_NAME \<or> e_name item = FOLDERS_NAME then Inr st
            else if move_ok env (e_name item) [ARCHIVE_NAME, FOLDERS_NAME]
            then Inr ((log_message (MovedFolder (e_name item)) st)
                       \<lparr>folders_processed := folders_processed st + 1,
                        moves := moves st @ [FolderMove (e_name item)]\<rparr>)
            else Inr (log_message (FolderMoveError (e_name item)) st))
      else if e_name item = CONFIG_NAME then Inr st
      else if lower (e_name item) \<in> set exclusion_list
              \<or> lower (suffix (e_name item)) \<in> set exclusion_list
      then Inr (log_message (Excluded (e_name item)) st)
      else if process_all_files then classify_and_move env existing_categories item st
      else (case e_mtime item of
              None \<Rightarrow> Inl (StatFailed, st)
            | Some file_mod_time \<Rightarrow>
                if file_mod_time \<ge> now env - DAY
                then Inr (log_message (Recent (e_name item)) st)
                else classify_and_move env existing_categories item st))"

fun organize_loop ::
  "org_env \<Rightarrow> bool \<Rightarrow> string list \<Rightarrow> string list \<Rightarrow> entry list \<Rightarrow> org_state
     \<Rightarrow> (error \<times> org_state) + org_state"
where
  "organize_loop env process_all_files exclusion_list existing_categories [] st = Inr st"
| "organize_loop env process_all_files exclusion_list existing_categories (item # items) st =
     (case process_item env process_all_files exclusion_list existing_categories item st of
        Inl e \<Rightarrow> Inl e
      | Inr st' \<Rightarrow>
          organize_loop env process_all_files exclusion_list existing_categories items st')"

definition exclusion_list_of :: "ext_map \<Rightarrow> string list" where
  "exclusion_list_of m = map lower (cat_list m ''Exclusions'')"

definition existing_categories_of :: "ext_map \<Rightarrow> string list" where
  "existing_categories_of m = filter (\<lambda>k. k \<noteq> ''Exclusions'') (map fst m)"

definition init_state :: "map_file \<Rightarrow> org_state" where
  "init_state file =
     \<lparr>EXT_MAP = [], map_on_disk = file, files_processed = 0, folders_processed = 0,
      moves = [], calls = [], slept = 0, logs = []\<rparr>"

text \<open>
  \<open>organize_downloads\<close>: an exception that the source does not catch (a directory that
  cannot be made, \<open>stat\<close> failing) ends the run with \<open>Inl\<close> and the state reached; a run
  that returns gives \<open>Inr\<close> of the returned value and the final state.
\<close>

definition organize_downloads ::
  "org_env \<Rightarrow> bool \<Rightarrow> map_file \<Rightarrow> (error \<times> org_state) + (nat \<times> org_state)" where
  "organize_downloads env process_all_files file =
     (let st = log_message SortingStart (init_state file)
      in if \<not> downloads_exists env then Inr (0, log_message DirNotFound st)
         else case load_extension_map env file of
                Inl e \<Rightarrow> Inl (e, st)
              | Inr (m, file') \<Rightarrow>
                  (let st = st\<lparr>EXT_MAP := m, map_on_disk := file'\<rparr>
                   in if \<not> mkdir_ok env [ARCHIVE_NAME, FOLDERS_NAME] then Inl (MkdirFailed, st)
                      else case organize_loop env process_all_files (exclusion_list_of m)
                                  (existing_categories_of m) (listing env) st of
                             Inl e \<Rightarrow> Inl e
                           | Inr st' \<Rightarrow>
                               Inr (files_processed st',
                                    log_message
                                      (SortingComplete (files_processed st') (folders_processed st'))
                                      st')))"

text \<open>The state a result carries, whether the run ended by an exception or not.\<close>

definition final :: "(error \<times> org_state) + org_state \<Rightarrow> org_state" where
  "final r = (case r of Inl (e, st) \<Rightarrow> st | Inr st \<Rightarrow> st)"

section \<open>The image renamer\<close>

text \<open>
  An entry of the images folder: whether it is a regular file, whether \<open>Image.open\<close>
  accepts it, and an identity that tells one file from another. The folder is a list of
  named entries in the order \<open>iterdir\<close> yields them.
\<close>

record fobj =
  is_file :: bool
  decodable :: bool
  fid :: nat

type_synonym folder = "(string \<times> fobj) list"

text \<open>
  Everything outside the renamer. \<open>rename_denied\<close> says which renames the operating
  system refuses for a reason of its own (permissions, a lock); \<open>posix\<close> selects what
  \<open>os.rename\<close> does when the target exists. The single-image request answers a JSON
  object whose \<open>short_title\<close> may be missing (\<open>None\<close>); an answer that is not an object
  with a string there raises, which is \<open>OtherError\<close>.
\<close>

record ren_env =
  folder_is_dir :: bool
  posix :: bool
  r_client :: bool
  batch_agent :: "nat \<Rightarrow> string list \<Rightarrow> (string \<times> string) list reply"
  single_agent :: "nat \<Rightarrow> string \<Rightarrow> string option reply"
  rename_denied :: "string \<Rightarrow> string \<Rightarrow> bool"

record ren_state =
  folder :: folder
  failed_files_for_retry :: "string list"
  batch_processed_count :: nat
  r_calls :: "call list"
  r_slept :: nat
  r_logs :: "log_event list"

definition r_log :: "log_event \<Rightarrow> ren_state \<Rightarrow> ren_state" where
  "r_log ev st = st\<lparr>r_logs := r_logs st @ [ev]\<rparr>"

definition r_record_call :: "call \<Rightarrow> ren_state \<Rightarrow> ren_state" where
  "r_record_call c st = st\<lparr>r_calls := r_calls st @ [c]\<rparr>"

definition r_sleep :: "nat \<Rightarrow> ren_state \<Rightarrow> ren_state" where
  "r_sleep n st = st\<lparr>r_slept := r_slept st + n\<rparr>"

definition queue_for_retry :: "string list \<Rightarrow> ren_state \<Rightarrow> ren_state" where
  "queue_for_retry names st = st\<lparr>failed_files_for_retry := failed_files_for_retry st @ names\<rparr>"

text \<open>
  \<open>os.rename(src, dst)\<close> inside the folder; \<open>None\<close> is an exception. The source must
  exist. Renaming a name to itself changes nothing. An existing target is replaced on
  POSIX when source and target are regular files, and is an error otherwise.
\<close>

definition os_rename :: "ren_env \<Rightarrow> string \<Rightarrow> string \<Rightarrow> folder \<Rightarrow> folder option" where
  "os_rename env src dst d =
     (case map_of d src of
        None \<Rightarrow> None
      | Some f \<Rightarrow>
          if rename_denied env src dst then None
          else if src = dst then Some d
          else (case map_of d dst of
                  None \<Rightarrow> Some (AList.update dst f (AList.delete src d))
                | Some g \<Rightarrow>
                    if posix env \<and> is_file f \<and> is_file g
                    then Some (AList.update dst f (AList.delete src d))
                    else None))"

definition can_open :: "folder \<Rightarrow> string \<Rightarrow> bool" where
  "can_open d name = (case map_of d name of Some f \<Rightarrow> is_file f \<and> decodable f | None \<Rightarrow> False)"

text \<open>The title as cleaned by both rename paths.\<close>

definition cleaned_title :: "string \<Rightarrow> string" where
  "cleaned_title short_title =
     replace_char CHR ''-'' CHR ''_'' (replace_char CHR '' '' CHR ''_'' (strip (re_sub_clean short_title)))"

text \<open>The retry loop of \<open>get_batch_info_from_images_renamer\<close>: every exception counts.\<close>

function batch_loop ::
  "ren_env \<Rightarrow> string list \<Rightarrow> nat \<Rightarrow> ren_state \<Rightarrow> (string \<times> string) list option \<times> ren_state"
where
  "batch_loop env names retries st =
     (if retries < MAX_RETRIES
      then (case batch_agent env (length (r_calls st)) names of
              Reply descriptions \<Rightarrow> (Some descriptions, r_record_call (BatchCall names) st)
            | ApiError \<Rightarrow>
                (if retries + 1 < MAX_RETRIES
                 then batch_loop env names (retries + 1)
                        (r_sleep RETRY_DELAY
                          (r_log (ImageAgentError (retries + 1)) (r_record_call (BatchCall names) st)))
                 else (None, r_log (ImageAgentError (retries + 1)) (r_record_call (BatchCall names) st)))
            | OtherError \<Rightarrow>
                (if retries + 1 < MAX_RETRIES
                 then batch_loop env names (retries + 1)
                        (r_sleep RETRY_DELAY
                          (r_log (ImageAgentError (retries + 1)) (r_record_call (BatchCall names) st)))
                 else (None, r_log (ImageAgentError (retries + 1)) (r_record_call (BatchCall names) st))))
      else (None, st))"
  by pat_completeness auto
termination
  by (relation "measure (\<lambda>(env, names, retries, st). MAX_RETRIES - retries)") auto

declare batch_loop.simps [simp del]

definition get_batch_info_from_images_renamer ::
  "ren_env \<Rightarrow> string list \<Rightarrow> ren_state \<Rightarrow> (string \<times> string) list option \<times> ren_state" where
  "get_batch_info_from_images_renamer env image_batch st =
     (if \<not> r_client env then (None, st) else batch_loop env image_batch 0 st)"

text \<open>
  The loop over the opened images of a batch. \<open>result_map\<close> is the dict built from the
  descriptions, as an association list that is looked up from its front.
\<close>

fun apply_results ::
  "ren_env \<Rightarrow> (string \<times> string) list \<Rightarrow> string list \<Rightarrow> ren_state \<Rightarrow> ren_state" where
  "apply_results env result_map [] st = st"
| "apply_results env result_map (original_filename # rest) st =
     apply_results env result_map rest
       (case map_of result_map original_filename of
          None \<Rightarrow> queue_for_retry [original_filename] st
        | Some short_title \<Rightarrow>
            (let ext = splitext_ext original_filename;
                 new_base_name = cleaned_title short_title @ PROCESSED_SUFFIX;
                 new_filename = new_base_name @ ext
             in case os_rename env original_filename new_filename (folder st) of
                  Some d \<Rightarrow> st\<lparr>folder := d, batch_processed_count := batch_processed_count st + 1\<rparr>
                | None \<Rightarrow> queue_for_retry [original_filename] st))"

text \<open>One batch. A later description of the same file name replaces an earlier one in
  the dict, hence the reversal.\<close>

definition process_batch :: "ren_env \<Rightarrow> string list \<Rightarrow> ren_state \<Rightarrow> ren_state" where
  "process_batch env current_batch_files st =
     (let image_batch = filter (can_open (folder st)) current_batch_files;
          st1 = queue_for_retry (filter (\<lambda>n. \<not> can_open (folder st) n) current_batch_files) st
      in if image_batch = [] then st1
         else case get_batch_info_from_images_renamer env image_batch st1 of
                (Some descriptions, st2) \<Rightarrow>
                  if descriptions \<noteq> []
                  then apply_results env (rev descriptions) image_batch st2
                  else queue_for_retry current_batch_files st2
              | (None, st2) \<Rightarrow> queue_for_retry current_batch_files st2)"

function ren_loop ::
  "ren_env \<Rightarrow> bool \<Rightarrow> string list \<Rightarrow> nat \<Rightarrow> ren_state \<Rightarrow> ren_state" where
  "ren_loop env use_delay all_files file_index st =
     (if file_index < length all_files
      then (let current_batch_files = take BATCH_SIZE (drop file_index all_files);
                st1 = process_batch env current_batch_files st;
                st2 = (if use_delay \<and> file_index + BATCH_SIZE < length all_files
                       then r_sleep 5 st1 else st1)
            in ren_loop env use_delay all_files (file_index + BATCH_SIZE) st2)
      else st)"
  by pat_completeness auto
termination
  by (relation "measure (\<lambda>(env, use_delay, all_files, file_index, st). length all_files - file_index)")
     (auto simp: BATCH_SIZE_def)

declare ren_loop.simps [simp del]

definition eligible :: "string \<times> fobj \<Rightarrow> bool" where
  "eligible nf =
     (is_file (snd nf) \<and> (\<exists>e \<in> set IMAGE_EXTENSIONS. endswith (lower (fst nf)) e)
      \<and> \<not> contains (fst nf) PROCESSED_SUFFIX)"

text \<open>\<open>execute_image_renamer\<close> returns the number it reports and the final state.\<close>

definition execute_image_renamer :: "ren_env \<Rightarrow> bool \<Rightarrow> ren_state \<Rightarrow> nat \<times> ren_state" where
  "execute_image_renamer env use_delay st0 =
     (let st = r_log RenamerStart st0
      in if \<not> folder_is_dir env then (0, r_log RenamerTargetMissing st)
         else (let all_files = map fst (filter eligible (folder st));
                   st1 = r_log (RenamerFound (length all_files))
                           (st\<lparr>batch_processed_count := 0, failed_files_for_retry := []\<rparr>);
                   st2 = ren_loop env use_delay all_files 0 st1
               in (batch_processed_count st2,
                   r_log (RenamerComplete (batch_processed_count st2)) st2)))"

subsection \<open>Single-file retry\<close>

text \<open>The search for a free name: \<open>base_1.ext\<close>, \<open>base_2.ext\<close>, and so on.\<close>

definition numbered :: "string \<Rightarrow> string \<Rightarrow> nat \<Rightarrow> string" where
  "numbered new_base_name ext counter = new_base_name @ ''_'' @ str_nat counter @ ext"

function free_name :: "string list \<Rightarrow> string \<Rightarrow> string \<Rightarrow> nat \<Rightarrow> string" where
  "free_name names new_base_name ext counter =
     (if numbered new_base_name ext counter \<in> set names
      then free_name names new_base_name ext (counter + 1)
      else numbered new_base_name ext counter)"
  by pat_completeness auto

lemma digit_char_inj: "a < 10 \<Longrightarrow> b < 10 \<Longrightarrow> digit_char a = digit_char b \<Longrightarrow> a = b"
proof -
  assume a: "a < 10" and b: "b < 10" and e: "digit_char a = digit_char b"
  from e have "(of_char (digit_char a) :: nat) = of_char (digit_char b)" by simp
  with a b show "a = b" by (simp add: digit_char_def)
qed

lemma str_nat_nonempty: "str_nat n \<noteq> []"
  by (subst str_nat.simps) simp

lemma str_nat_inj: "str_nat n = str_nat m \<Longrightarrow> n = m"
proof (induction n arbitrary: m rule: str_nat.induct)
  case (1 n)
  show ?case
  proof (cases "n < 10")
    case True
    then have n: "str_nat n = [digit_char n]" by (subst str_nat.simps) simp
    have "m < 10"
    proof (rule ccontr)
      assume "\<not> m < 10"
      then have "str_nat m = str_nat (m div 10) @ [digit_char (m mod 10)]"
        by (subst str_nat.simps) simp
      with n "1.prems" str_nat_nonempty [of "m div 10"] show False by simp
    qed
    then have "str_nat m = [digit_char m]" by (subst str_nat.simps) simp
    with n "1.prems" True \<open>m < 10\<close> show ?thesis by (simp add: digit_char_inj)
  next
    case False
    then have n: "str_nat n = str_nat (n div 10) @ [digit_char (n mod 10)]"
      by (subst str_nat.simps) simp
    have m10: "\<not> m < 10"
    proof
      assume "m < 10"
      then have "str_nat m = [digit_char m]" by (subst str_nat.simps) simp
      with n "1.prems" str_nat_nonempty [of "n div 10"] show False by simp
    qed
    then have m: "str_nat m = str_nat (m div 10) @ [digit_char (m mod 10)]"
      by (subst str_nat.simps) simp
    from n m "1.prems" have d: "str_nat (n div 10) = str_nat (m div 10)"
      and r: "digit_char (n mod 10) = digit_char (m mod 10)" by simp_all
    from "1.IH" [OF False d] have "n div 10 = m div 10" .
    moreover from r have "n mod 10 = m mod 10" by (simp add: digit_char_inj)
    ultimately show ?thesis by (metis div_mult_mod_eq)
  qed
qed

lemma numbered_inj: "inj (numbered b e)"
  by (rule injI) (simp add: numbered_def str_nat_inj)

lemma finite_numbered: "finite {k. numbered b e k \<in> set names}"
proof -
  have "{k. numbered b e k \<in> set names} = numbered b e -` set names" by auto
  then show ?thesis by (simp add: finite_vimageI numbered_inj)
qed

termination free_name
proof (relation "measure (\<lambda>(names, b, e, c). card {k. c \<le> k \<and> numbered b e k \<in> set names})")
  show "wf (measure (\<lambda>(names, b, e, c). card {k. c \<le> k \<and> numbered b e k \<in> set names}))"
    by simp
next
  fix names :: "string list" and new_base_name ext :: string and counter :: nat
  assume here: "numbered new_base_name ext counter \<in> set names"
  let ?S = "\<lambda>c. {k. c \<le> k \<and> numbered new_base_name ext k \<in> set names}"
  have fin: "finite (?S counter)"
    by (rule finite_subset [OF _ finite_numbered [of new_base_name ext names]]) auto
  have "counter \<in> ?S counter" and "counter \<notin> ?S (counter + 1)" and "?S (counter + 1) \<subseteq> ?S counter"
    using here by auto
  then have "?S (counter + 1) \<subset> ?S counter" by blast
  then have "card (?S (counter + 1)) < card (?S counter)"
    using fin by (rule psubset_card_mono [rotated])
  then show "((names, new_base_name, ext, counter + 1), (names, new_base_name, ext, counter))
      \<in> measure (\<lambda>(names, b, e, c). card {k. c \<le> k \<and> numbered b e k \<in> set names})"
    by simp
qed

declare free_name.simps [simp del]

definition pick_name :: "string list \<Rightarrow> string \<Rightarrow> string \<Rightarrow> string" where
  "pick_name names new_base_name ext =
     (if new_base_name @ ext \<in> set names then free_name names new_base_name ext 1
      else new_base_name @ ext)"

text \<open>The \<open>except\<close> branch: the temporary name goes back to the original one.\<close>

definition restore_original :: "ren_env \<Rightarrow> string \<Rightarrow> string \<Rightarrow> ren_state \<Rightarrow> bool \<times> ren_state" where
  "restore_original env temp_filename original_filename st =
     (let st1 = r_log (RetryFailed original_filename) st
      in case os_rename env temp_filename original_filename (folder st1) of
           Some d \<Rightarrow> (False, st1\<lparr>folder := d\<rparr>)
         | None \<Rightarrow> (False, r_log RestoreFatal st1))"

text \<open>\<open>retry_failed_file_renamer\<close>; \<open>temp_unique_id\<close> is the eight hexadecimal digits
  drawn from \<open>uuid4\<close>.\<close>

definition retry_failed_file_renamer ::
  "ren_env \<Rightarrow> string \<Rightarrow> string \<Rightarrow> ren_state \<Rightarrow> bool \<times> ren_state" where
  "retry_failed_file_renamer env temp_unique_id original_filename st0 =
     (if \<not> r_client env then (False, st0)
      else (let st = r_log (RetryAttempt original_filename) st0;
                ext = splitext_ext original_filename;
                temp_filename = ''temp_retry_'' @ temp_unique_id @ ext
            in case os_rename env original_filename temp_filename (folder st) of
                 None \<Rightarrow> restore_original env temp_filename original_filename st
               | Some d1 \<Rightarrow>
                   (let st1 = st\<lparr>folder := d1\<rparr>
                    in if \<not> can_open d1 temp_filename
                       then restore_original env temp_filename original_filename st1
                       else (let st2 = r_record_call (SingleCall original_filename) st1
                             in case single_agent env (length (r_calls st1)) original_filename of
                                  Reply (Some short_title) \<Rightarrow>
                                    if short_title = []
                                    then restore_original env temp_filename original_filename st2
                                    else (let new_base_name = cleaned_title short_title @ PROCESSED_SUFFIX;
                                              new_filename = pick_name (map fst d1) new_base_name ext
                                          in case os_rename env temp_filename new_filename d1 of
                                               Some d2 \<Rightarrow>
                                                 (True, r_log (RetrySuccess new_filename) (st2\<lparr>folder := d2\<rparr>))
                                             | None \<Rightarrow>
                                                 restore_original env temp_filename original_filename st2)
                                | Reply None \<Rightarrow>
                                    restore_original env temp_filename original_filename st2
                                | ApiError \<Rightarrow>
                                    restore_original env temp_filename original_filename st2
                                | OtherError \<Rightarrow>
                                    restore_original env temp_filename original_filename st2))))"

section \<open>Auxiliary notions for the statements\<close>

text \<open>The state a result carries, and the value a run returns to its caller.\<close>

definition end_state :: "(error \<times> org_state) + (nat \<times> org_state) \<Rightarrow> org_state" where
  "end_state r = (case r of Inl (e, st) \<Rightarrow> st | Inr (n, st) \<Rightarrow> st)"




fun is_single_call :: "call \<Rightarrow> bool" where
  "is_single_call (SingleCall n) = True"
| "is_single_call c = False"


text \<open>What a step that neither learns a mapping nor moves anything leaves as it was.\<close>

definition frame :: "org_state \<Rightarrow> org_state \<Rightarrow> bool" where
  "frame st st' \<longleftrightarrow>
     EXT_MAP st' = EXT_MAP st \<and> map_on_disk st' = map_on_disk st \<and>
     files_processed st' = files_processed st \<and> folders_processed st' = folders_processed st \<and>
     moves st' = moves st"

text \<open>A step of the renamer that sends no single-image request and only appends to the
  retry queue.\<close>

definition only_queues :: "ren_state \<Rightarrow> ren_state \<Rightarrow> bool" where
  "only_queues st st' \<longleftrightarrow>
     filter is_single_call (r_calls st') = filter is_single_call (r_calls st)
     \<and> (\<exists>q. failed_files_for_retry st' = failed_files_for_retry st @ q)"

text \<open>
  The normalisation of a category name as the specification words it: characters outside
  \<open>[A-Za-z0-9_- ]\<close> are stripped and spaces become underscores. It is compared with
  \<open>safe_name\<close>, which is what the source computes.
\<close>

definition spec_category_char :: "char \<Rightarrow> bool" where
  "spec_category_char c =
     (let n = (of_char c :: nat)
      in (65 \<le> n \<and> n \<le> 90) \<or> (97 \<le> n \<and> n \<le> 122) \<or> (48 \<le> n \<and> n \<le> 57)
         \<or> c = CHR ''_'' \<or> c = CHR ''-'' \<or> c = CHR '' '')"

definition spec_normalize :: "string \<Rightarrow> string" where
  "spec_normalize s = replace_char CHR '' '' CHR ''_'' (filter spec_category_char s)"

section \<open>Concrete scenarios\<close>

definition file_entry :: "string \<Rightarrow> int \<Rightarrow> entry" where
  "file_entry name t = \<lparr>e_name = name, e_is_dir = False, e_mtime = Some t\<rparr>"

definition dir_entry :: "string \<Rightarrow> entry" where
  "dir_entry name = \<lparr>e_name = name, e_is_dir = True, e_mtime = Some 0\<rparr>"

definition ext_down :: "nat \<Rightarrow> string \<Rightarrow> string list \<Rightarrow> (string \<times> bool) reply" where
  "ext_down n e ex = ApiError"

definition ext_broken :: "nat \<Rightarrow> string \<Rightarrow> string list \<Rightarrow> (string \<times> bool) reply" where
  "ext_broken n e ex = (if n = 0 then ApiError else OtherError)"


definition code_web :: "nat \<Rightarrow> string \<Rightarrow> (string \<times> string) reply" where
  "code_web n name = Reply (''scraper'', ''Web Scraper'')"

definition any_file :: "string \<Rightarrow> bool" where
  "any_file name = True"

definition any_dir :: "string list \<Rightarrow> bool" where
  "any_dir path = True"

definition any_move :: "string \<Rightarrow> string list \<Rightarrow> bool" where
  "any_move name path = True"

definition write_ok :: "ext_map \<Rightarrow> write_outcome" where
  "write_ok m = Written"

definition write_fails :: "ext_map \<Rightarrow> write_outcome" where
  "write_fails m = OpenFailed"

text \<open>A run two days after the epoch of the model's clock, with a working file system.\<close>

definition scenario ::
  "entry list \<Rightarrow> (nat \<Rightarrow> string \<Rightarrow> string list \<Rightarrow> (string \<times> bool) reply)
     \<Rightarrow> (ext_map \<Rightarrow> write_outcome) \<Rightarrow> org_env" where
  "scenario ls agent wr =
     \<lparr>downloads_exists = True, listing = ls, now = 2 * DAY, client = True, ext_agent = agent,
      code_agent = code_web, readable = any_file, mkdir_ok = any_dir, move_ok = any_move,
      map_write = wr\<rparr>"


text \<open>The state of a run right after the default map has been loaded.\<close>

definition loaded :: org_state where
  "loaded = (init_state (Stored default_map))\<lparr>EXT_MAP := default_map\<rparr>"

definition img :: "nat \<Rightarrow> fobj" where
  "img n = \<lparr>is_file = True, decodable = True, fid = n\<rparr>"

definition one_cat :: "nat \<Rightarrow> string list \<Rightarrow> (string \<times> string) list reply" where
  "one_cat n names = Reply [(''a.png'', ''Cat'')]"

definition batch_down :: "nat \<Rightarrow> string list \<Rightarrow> (string \<times> string) list reply" where
  "batch_down n names = ApiError"

definition single_cat :: "nat \<Rightarrow> string \<Rightarrow> string option reply" where
  "single_cat n name = Reply (Some ''Cat'')"

definition single_down :: "nat \<Rightarrow> string \<Rightarrow> string option reply" where
  "single_down n name = ApiError"

definition no_denial :: "string \<Rightarrow> string \<Rightarrow> bool" where
  "no_denial src dst = False"

definition env_collide :: "bool \<Rightarrow> ren_env" where
  "env_collide px =
     \<lparr>folder_is_dir = True, posix = px, r_client = True, batch_agent = one_cat,
      single_agent = single_cat, rename_denied = no_denial\<rparr>"

definition env_down :: ren_env where
  "env_down =
     \<lparr>folder_is_dir = True, posix = True, r_client = True, batch_agent = batch_down,
      single_agent = single_down, rename_denied = no_denial\<rparr>"



definition start :: "folder \<Rightarrow> ren_state" where
  "start d =
     \<lparr>folder = d, failed_files_for_retry = [], batch_processed_count = 0,
      r_calls = [], r_slept = 0, r_logs = []\<rparr>"

definition two_cats :: folder where
  "two_cats = [(''a.png'', img 1), (''Cat_DESC.png'', img 2)]"

section \<open>The extension map: recording a mapping\<close>

lemma map_of_append_ext:
  "map_of (append_ext k e m) k' =
     (if k' = k then map_option (\<lambda>es. es @ [e]) (map_of m k) else map_of m k')"
  by (induction m) auto

lemma map_of_snoc_new:
  "map_of (m @ [(k, v)]) k' =
     (case map_of m k' of Some x \<Rightarrow> Some x | None \<Rightarrow> if k' = k then Some v else None)"
  by (simp add: map_add_def split: option.splits)

lemma cat_list_update:
  "cat_list (fst (update_extension_map wr m mf ext fname)) k =
     (if k = safe_name fname \<and> lower ext \<notin> set (cat_list m k)
      then cat_list m k @ [lower ext] else cat_list m k)"
  by (auto simp add: update_extension_map_def Let_def cat_list_def map_of_append_ext map_of_snoc_new
           simp del: map_of_append split: option.splits)

lemma key_present_update:
  "map_of (fst (update_extension_map wr m mf ext fname)) (safe_name fname) \<noteq> None"
  by (auto simp add: update_extension_map_def Let_def cat_list_def map_of_append_ext map_of_snoc_new
           simp del: map_of_append split: option.splits)

lemma update_again:
  assumes "update_extension_map wr m mf ext fname = (m', mf', msgs)"
  shows "update_extension_map wr' m' mf' ext fname = (m', mf', [])"
proof -
  have k: "map_of m' (safe_name fname) \<noteq> None"
    using key_present_update [of wr m mf ext fname] assms by simp
  have e: "lower ext \<in> set (cat_list m' (safe_name fname))"
    using cat_list_update [of wr m mf ext fname "safe_name fname"] assms
    by (simp split: if_splits)
  show ?thesis using k e by (simp add: update_extension_map_def Let_def)
qed

text \<open>
  C7, as amended. \<open>update_extension_map\<close> keeps of the category name every word
  character, every whitespace character and every hyphen (the classes \<open>\\w\<close> and \<open>\\s\<close> of
  the regular expression, not only \<open>[A-Za-z0-9_- ]\<close>), turns spaces into underscores and
  lowercases the extension. The extension is appended to the list of that category
  exactly when it is not there yet, every other list stays as it was, no list that was
  free of duplicates gets one, and recording the same pair again changes neither the map
  nor the file and logs nothing.
\<close>

theorem update_extension_map_appends_once:
  assumes "update_extension_map wr m mf extension fname = (m', mf', msgs)"
  shows "safe_name fname =
           replace_char CHR '' '' CHR ''_''
             (filter (\<lambda>c. isword c \<or> isspace c \<or> c = CHR ''-'') fname)
         \<and> cat_list m' k =
             (if k = safe_name fname \<and> lower extension \<notin> set (cat_list m k)
              then cat_list m k @ [lower extension] else cat_list m k)
         \<and> (distinct (cat_list m k) \<longrightarrow> distinct (cat_list m' k))
         \<and> update_extension_map wr' m' mf' extension fname = (m', mf', [])"
proof -
  have c: "cat_list m' k =
             (if k = safe_name fname \<and> lower extension \<notin> set (cat_list m k)
              then cat_list m k @ [lower extension] else cat_list m k)"
    using cat_list_update [of wr m mf extension fname k] assms by simp
  have d: "distinct (cat_list m k) \<longrightarrow> distinct (cat_list m' k)"
    by (auto simp: c)
  have s: "safe_name fname =
           replace_char CHR '' '' CHR ''_''
             (filter (\<lambda>c. isword c \<or> isspace c \<or> c = CHR ''-'') fname)"
    by (simp add: safe_name_def re_sub_clean_def)
  from s c d update_again [OF assms] show ?thesis by blast
qed

theorem update_extension_map_appends_once_witness:
  "cat_list (fst (update_extension_map write_ok default_map Absent ''.XYZ'' ''Blender Files''))
     ''Blender_Files'' = [''.xyz'']
   \<and> update_extension_map write_fails
       (fst (update_extension_map write_ok default_map Absent ''.XYZ'' ''Blender Files''))
       (fst (snd (update_extension_map write_ok default_map Absent ''.XYZ'' ''Blender Files'')))
       ''.XYZ'' ''Blender Files''
     = (fst (update_extension_map write_ok default_map Absent ''.XYZ'' ''Blender Files''),
        fst (snd (update_extension_map write_ok default_map Absent ''.XYZ'' ''Blender Files'')), [])"
proof -
  let ?r = "update_extension_map write_ok default_map Absent ''.XYZ'' ''Blender Files''"
  have p: "?r = (fst ?r, fst (snd ?r), snd (snd ?r))" by simp
  have n: "safe_name ''Blender Files'' = ''Blender_Files''" "lower ''.XYZ'' = ''.xyz''"
    "cat_list default_map ''Blender_Files'' = []"
    by code_simp+
  note t = update_extension_map_appends_once [OF p, of "''Blender_Files''" write_fails]
  have a: "cat_list (fst ?r) ''Blender_Files'' = [''.xyz'']"
    using t [THEN conjunct2, THEN conjunct1] n by simp
  have b: "update_extension_map write_fails (fst ?r) (fst (snd ?r)) ''.XYZ'' ''Blender Files''
             = (fst ?r, fst (snd ?r), [])"
    using t [THEN conjunct2, THEN conjunct2, THEN conjunct2] .
  from a b show ?thesis by (rule conjI)
qed

text \<open>
  C7 as stated fails: a tab is whitespace, so the source keeps it in the category name,
  while stripping the characters outside \<open>[A-Za-z0-9_- ]\<close> would remove it.
\<close>

theorem record_keeps_tab_counterexample:
  "map fst (fst (update_extension_map write_ok [] Absent ''.xyz'' [CHR ''a'', CHR 0x09, CHR ''b'']))
     = [[CHR ''a'', CHR 0x09, CHR ''b'']]
   \<and> spec_normalize [CHR ''a'', CHR 0x09, CHR ''b''] = ''ab''"
  by code_simp

section \<open>The image renamer: collisions and the retry queue\<close>

text \<open>
  C1 at a failing input. The folder holds \<open>a.png\<close> and \<open>Cat_DESC.png\<close>, and the oracle
  titles \<open>a.png\<close> "Cat", so that the derived name is taken. On POSIX the batch path
  renames \<open>a.png\<close> over \<open>Cat_DESC.png\<close>, whose file is lost; elsewhere the rename fails
  and \<open>a.png\<close> is queued. In neither case does a name with a counter appear.
\<close>

theorem batch_rename_ignores_collision:
  "execute_image_renamer (env_collide True) False (start two_cats)
     = (1, \<lparr>folder = [(''Cat_DESC.png'', img 1)], failed_files_for_retry = [],
            batch_processed_count = 1, r_calls = [BatchCall [''a.png'']], r_slept = 0,
            r_logs = [RenamerStart, RenamerFound 1, RenamerComplete 1]\<rparr>)
   \<and> execute_image_renamer (env_collide False) False (start two_cats)
     = (0, \<lparr>folder = two_cats, failed_files_for_retry = [''a.png''],
            batch_processed_count = 0, r_calls = [BatchCall [''a.png'']], r_slept = 0,
            r_logs = [RenamerStart, RenamerFound 1, RenamerComplete 0]\<rparr>)"
  by code_simp

text \<open>The single-file retry, given the same folder and title, does look for a free name.\<close>

lemma retry_path_finds_free_name:
  "retry_failed_file_renamer (env_collide True) ''0a1b2c3d'' ''a.png'' (start two_cats)
     = (True, \<lparr>folder = [(''Cat_DESC.png'', img 2), (''Cat_DESC_1.png'', img 1)],
               failed_files_for_retry = [], batch_processed_count = 0,
               r_calls = [SingleCall ''a.png''], r_slept = 0,
               r_logs = [RetryAttempt ''a.png'', RetrySuccess ''Cat_DESC_1.png'']\<rparr>)"
  by code_simp

text \<open>
  C2 at a failing input. The oracle fails on every attempt for the only batch; the
  renamer ends with \<open>a.png\<close> in the retry queue, under its old name, and without a
  single-image request.
\<close>

theorem failed_batch_is_queued_not_repaired:
  "execute_image_renamer env_down True (start two_cats)
     = (0, \<lparr>folder = two_cats, failed_files_for_retry = [''a.png''],
            batch_processed_count = 0,
            r_calls = [BatchCall [''a.png''], BatchCall [''a.png''], BatchCall [''a.png'']],
            r_slept = 20,
            r_logs = [RenamerStart, RenamerFound 1, ImageAgentError 1, ImageAgentError 2,
                      ImageAgentError 3, RenamerComplete 0]\<rparr>)"
  by code_simp

section \<open>The organize run: classification\<close>

lemmas st_ops = log_message_def record_call_def sleep_def

lemma gfr_loop_api_errors:
  "r + k \<le> MAX_RETRIES \<Longrightarrow>
   (\<forall>i<k. ext_agent env (length (calls st) + i) e ex = ApiError) \<Longrightarrow>
   gfr_loop env e ex r st =
     gfr_loop env e ex (r + k)
       (st\<lparr>calls := calls st @ replicate k (ExtCall e),
           slept := slept st + k * RETRY_DELAY,
           logs := logs st @ map ExtAgentError [r + 1 ..< r + k + 1]\<rparr>)"
proof (induction k arbitrary: r st)
  case 0
  then show ?case by simp
next
  case (Suc k)
  let ?st1 = "sleep RETRY_DELAY (log_message (ExtAgentError (r + 1)) (record_call (ExtCall e) st))"
  from Suc.prems have r: "r < MAX_RETRIES" and a0: "ext_agent env (length (calls st)) e ex = ApiError"
    by auto
  have step: "gfr_loop env e ex r st = gfr_loop env e ex (r + 1) ?st1"
    using r a0 by (subst gfr_loop.simps) simp
  have rest: "\<forall>i<k. ext_agent env (length (calls ?st1) + i) e ex = ApiError"
  proof (intro allI impI)
    fix i assume "i < k"
    then have "Suc i < Suc k" by simp
    with Suc.prems(2) have "ext_agent env (length (calls st) + Suc i) e ex = ApiError" by blast
    then show "ext_agent env (length (calls ?st1) + i) e ex = ApiError" by (simp add: st_ops)
  qed
  have "gfr_loop env e ex (r + 1) ?st1 =
        gfr_loop env e ex (r + 1 + k)
          (?st1\<lparr>calls := calls ?st1 @ replicate k (ExtCall e),
               slept := slept ?st1 + k * RETRY_DELAY,
               logs := logs ?st1 @ map ExtAgentError [r + 1 + 1 ..< r + 1 + k + 1]\<rparr>)"
    using Suc.prems(1) rest by (intro Suc.IH) auto
  also have "(?st1\<lparr>calls := calls ?st1 @ replicate k (ExtCall e),
               slept := slept ?st1 + k * RETRY_DELAY,
               logs := logs ?st1 @ map ExtAgentError [r + 1 + 1 ..< r + 1 + k + 1]\<rparr>) =
             (st\<lparr>calls := calls st @ replicate (Suc k) (ExtCall e),
               slept := slept st + Suc k * RETRY_DELAY,
               logs := logs st @ map ExtAgentError [r + 1 ..< r + Suc k + 1]\<rparr>)"
    by (simp add: st_ops upt_rec [of "Suc r"])
  finally show ?case using step by simp
qed













lemma final_simps [simp]: "final (Inl (e, st)) = st" "final (Inr st) = st"
  by (simp_all add: final_def)

lemma log_message_sel [simp]:
  "EXT_MAP (log_message ev st) = EXT_MAP st" "calls (log_message ev st) = calls st"
  "map_on_disk (log_message ev st) = map_on_disk st" "moves (log_message ev st) = moves st"
  "slept (log_message ev st) = slept st" "files_processed (log_message ev st) = files_processed st"
  "folders_processed (log_message ev st) = folders_processed st"
  "logs (log_message ev st) = logs st @ [ev]"
  by (simp_all add: log_message_def)

lemma final_move_frame:
  "EXT_MAP (final (final_move env item d st)) = EXT_MAP st \<and>
   map_on_disk (final (final_move env item d st)) = map_on_disk st \<and>
   calls (final (final_move env item d st)) = calls st \<and>
   slept (final (final_move env item d st)) = slept st"
  by (simp add: final_move_def final_def st_ops split: dest.splits)


lemma analyze_frame:
  "frame st (snd (analyze_code_content env name st)) \<and>
   slept (snd (analyze_code_content env name st)) = slept st \<and>
   (calls (snd (analyze_code_content env name st)) = calls st \<or>
    calls (snd (analyze_code_content env name st)) = calls st @ [CodeCall name])"
  by (simp add: analyze_code_content_def frame_def st_ops split: reply.splits)

lemma classify_mapped:
  assumes "rule_match (EXT_MAP st) (lower (suffix (e_name item))) = Some category"
  shows "EXT_MAP (final (classify_and_move env existing item st)) = EXT_MAP st \<and>
         (calls (final (classify_and_move env existing item st)) = calls st \<or>
          category = ''Code'' \<and>
          calls (final (classify_and_move env existing item st)) = calls st @ [CodeCall (e_name item)])"
proof -
  let ?st = "log_message (Processing (e_name item)) st"
  note m = assms
  have base: "EXT_MAP ?st = EXT_MAP st" "calls ?st = calls st" by simp_all
  show ?thesis
  proof (cases "category = ''Code''")
    case False
    then have "classify_and_move env existing item st = final_move env item (Name category) ?st"
      by (simp add: classify_and_move_def Let_def m)
    then show ?thesis using base by (simp add: final_move_frame)
  next
    case True
    obtain r st1 where a: "analyze_code_content env (e_name item) ?st = (r, st1)"
      by (cases "analyze_code_content env (e_name item) ?st")
    from analyze_frame [of ?st env "e_name item"] a base
    have st1: "EXT_MAP st1 = EXT_MAP st"
      "calls st1 = calls st \<or> calls st1 = calls st @ [CodeCall (e_name item)]"
      by (simp_all add: frame_def)
    have "EXT_MAP (final (classify_and_move env existing item st)) = EXT_MAP st1 \<and>
          calls (final (classify_and_move env existing item st)) = calls st1"
    proof (cases r)
      case None
      then show ?thesis
        by (simp add: classify_and_move_def Let_def m a True final_move_frame)
    next
      case (Some pf)
      obtain p f where pf: "pf = (p, f)" by (cases pf)
      have "classify_and_move env existing item st =
              (if f \<noteq> []
               then if \<not> mkdir_ok env [ARCHIVE_NAME, ''Code_Projects'', safe_name f]
                    then Inl (MkdirFailed, st1)
                    else final_move env item (CodeProject (safe_name f))
                           (log_message (ClassifiedAs (safe_name f)) st1)
               else final_move env item (Name category) st1)"
        by (simp add: classify_and_move_def Let_def m a True Some pf)
      then show ?thesis by (simp add: final_move_frame)
    qed
    with st1 True show ?thesis by auto
  qed
qed

lemma process_item_cases:
  "(\<exists>st'. process_item env process_all exclusion_list existing item st = Inr st' \<and>
          EXT_MAP st' = EXT_MAP st \<and> calls st' = calls st \<and> map_on_disk st' = map_on_disk st) \<or>
   process_item env process_all exclusion_list existing item st = Inl (StatFailed, st) \<or>
   process_item env process_all exclusion_list existing item st
     = classify_and_move env existing item st"
  by (cases "e_mtime item") (simp_all add: process_item_def)

lemma process_item_mapped:
  assumes "rule_match (EXT_MAP st) (lower (suffix (e_name item))) = Some category"
  shows "EXT_MAP (final (process_item env process_all exclusion_list existing item st)) = EXT_MAP st \<and>
         (calls (final (process_item env process_all exclusion_list existing item st)) = calls st \<or>
          category = ''Code'' \<and>
          calls (final (process_item env process_all exclusion_list existing item st))
            = calls st @ [CodeCall (e_name item)])"
proof -
  from process_item_cases [of env process_all exclusion_list existing item st]
  consider (skip) st' where "process_item env process_all exclusion_list existing item st = Inr st'"
      "EXT_MAP st' = EXT_MAP st" "calls st' = calls st"
    | (stat) "process_item env process_all exclusion_list existing item st = Inl (StatFailed, st)"
    | (go) "process_item env process_all exclusion_list existing item st
              = classify_and_move env existing item st"
    by blast
  then show ?thesis
  proof cases
    case skip
    then show ?thesis by simp
  next
    case stat
    then show ?thesis by simp
  next
    case go
    then show ?thesis using classify_mapped [OF assms] by simp
  qed
qed

text \<open>
  C3, as amended. A file whose extension is in the extension map never causes a request
  to classify the extension, and the map stays as it is; the only request the oracle can
  get for it is the analysis of its content, and only when the first category that lists
  the extension is \<open>Code\<close>.
\<close>

theorem mapped_extension_never_escalated:
  assumes "rule_match (EXT_MAP st) (lower (suffix (e_name item))) = Some category"
  shows "EXT_MAP (final (process_item env process_all exclusion_list existing item st)) = EXT_MAP st \<and>
         (calls (final (process_item env process_all exclusion_list existing item st)) = calls st \<or>
          category = ''Code'' \<and>
          calls (final (process_item env process_all exclusion_list existing item st))
            = calls st @ [CodeCall (e_name item)])"
  using assms by (rule process_item_mapped)


text \<open>Scenario 1 of the specification: \<open>report.pdf\<close> with the default map.\<close>

theorem mapped_extension_never_escalated_witness:
  "rule_match (EXT_MAP loaded) (lower (suffix (e_name (file_entry ''report.pdf'' 0)))) = Some ''Documents''
   \<and> EXT_MAP (final (process_item (scenario [] ext_down write_ok) True (exclusion_list_of default_map)
            (existing_categories_of default_map) (file_entry ''report.pdf'' 0) loaded)) = EXT_MAP loaded
   \<and> calls (final (process_item (scenario [] ext_down write_ok) True (exclusion_list_of default_map)
            (existing_categories_of default_map) (file_entry ''report.pdf'' 0) loaded)) = calls loaded"
proof -
  have h: "rule_match (EXT_MAP loaded) (lower (suffix (e_name (file_entry ''report.pdf'' 0))))
             = Some ''Documents''"
    by code_simp
  from mapped_extension_never_escalated [OF h] h show ?thesis by simp
qed

text \<open>
  C3 as stated fails: \<open>.py\<close> is in the map, under \<open>Code\<close>, and the run sends the
  content of \<open>a.py\<close> to the oracle.
\<close>

theorem code_file_calls_oracle_counterexample:
  "rule_match default_map (lower (suffix ''a.py'')) = Some ''Code''
   \<and> calls (end_state (organize_downloads (scenario [file_entry ''a.py'' 0] ext_down write_ok) True
        (Stored default_map))) = [CodeCall ''a.py'']"
  by code_simp



text \<open>
  C5, as amended. A file (not a directory) whose name or extension equals, up to case,
  an entry of the exclusion list is skipped: nothing is moved, no mapping is learnt, no
  counter changes and the oracle gets no request.
\<close>

theorem excluded_file_is_skipped:
  assumes "\<not> e_is_dir item"
    and "\<exists>x \<in> set (cat_list m ''Exclusions'').
           lower (e_name item) = lower x \<or> lower (suffix (e_name item)) = lower x"
  shows "\<exists>st'. process_item env process_all (exclusion_list_of m) existing item st = Inr st'
               \<and> frame st st' \<and> calls st' = calls st \<and> slept st' = slept st"
proof -
  from assms(2) have ex: "lower (e_name item) \<in> set (exclusion_list_of m)
      \<or> lower (suffix (e_name item)) \<in> set (exclusion_list_of m)"
    by (auto simp: exclusion_list_of_def)
  show ?thesis
  proof (cases "e_name item = CONFIG_NAME")
    case True
    with assms(1) show ?thesis by (simp add: process_item_def frame_def)
  next
    case False
    with assms(1) ex
    have "process_item env process_all (exclusion_list_of m) existing item st
            = Inr (log_message (Excluded (e_name item)) st)"
      by (simp add: process_item_def)
    then show ?thesis by (simp add: frame_def)
  qed
qed

theorem excluded_file_is_skipped_witness:
  "(\<exists>st'. process_item (scenario [] ext_down write_ok) True (exclusion_list_of default_map)
            (existing_categories_of default_map) (file_entry ''ReadMe.MD'' 0) loaded = Inr st'
          \<and> frame loaded st' \<and> calls st' = calls loaded \<and> slept st' = slept loaded)"
proof -
  have d: "\<not> e_is_dir (file_entry ''ReadMe.MD'' 0)" by (simp add: file_entry_def)
  have m: "''README.md'' \<in> set (cat_list default_map ''Exclusions'')" by code_simp
  have l: "lower (e_name (file_entry ''ReadMe.MD'' 0)) = lower ''README.md''" by code_simp
  from m l have "\<exists>x \<in> set (cat_list default_map ''Exclusions'').
           lower (e_name (file_entry ''ReadMe.MD'' 0)) = lower x
           \<or> lower (suffix (e_name (file_entry ''ReadMe.MD'' 0))) = lower x"
    by blast
  from excluded_file_is_skipped [OF d this] show ?thesis .
qed

text \<open>
  C5 as stated fails for directories: they are moved into \<open>Folders\<close> before the
  exclusion list is looked at.
\<close>

theorem excluded_directory_counterexample:
  "lower ''README.md'' \<in> set (exclusion_list_of default_map)
   \<and> lower (suffix ''cache.TEMP'') \<in> set (exclusion_list_of default_map)
   \<and> moves (end_state (organize_downloads
        (scenario [dir_entry ''README.md'', dir_entry ''cache.TEMP''] ext_down write_ok) True
        (Stored default_map))) = [FolderMove ''README.md'', FolderMove ''cache.TEMP'']"
  by code_simp



section \<open>The organize run: escalation to the oracle\<close>

lemma record_call_sel [simp]:
  "EXT_MAP (record_call c st) = EXT_MAP st" "calls (record_call c st) = calls st @ [c]"
  "map_on_disk (record_call c st) = map_on_disk st" "moves (record_call c st) = moves st"
  "slept (record_call c st) = slept st" "files_processed (record_call c st) = files_processed st"
  "folders_processed (record_call c st) = folders_processed st"
  "logs (record_call c st) = logs st"
  by (simp_all add: record_call_def)


lemma escalate_fallback:
  assumes "client env"
    and "k \<le> MAX_RETRIES"
    and "\<forall>i<k. ext_agent env (length (calls st) + i) ext existing = ApiError"
    and "k < MAX_RETRIES \<longrightarrow>
           ext_agent env (length (calls st) + k) ext existing = OtherError
           \<or> (\<exists>b. ext_agent env (length (calls st) + k) ext existing = Reply ([], b))"
  shows "\<exists>st'. escalate env ext existing st = (''Unsorted_Agent_Failed'', st')
               \<and> calls st' = calls st @ replicate (min (k + 1) MAX_RETRIES) (ExtCall ext)
               \<and> slept st' = slept st + k * RETRY_DELAY
               \<and> frame st st'"
proof -
  define stk where "stk = st\<lparr>calls := calls st @ replicate k (ExtCall ext),
           slept := slept st + k * RETRY_DELAY,
           logs := logs st @ map ExtAgentError [0 + 1 ..< 0 + k + 1]\<rparr>"
  have run: "gfr_loop env ext existing 0 st = gfr_loop env ext existing k stk"
    using gfr_loop_api_errors [of 0 k env st ext existing] assms(2,3) by (simp add: stk_def)
  have sel: "calls stk = calls st @ replicate k (ExtCall ext)" "slept stk = slept st + k * RETRY_DELAY"
    "frame st stk"
    by (simp_all add: stk_def frame_def)
  show ?thesis
  proof (cases "k < MAX_RETRIES")
    case False
    with assms(2) have k: "k = MAX_RETRIES" by simp
    have "gfr_loop env ext existing k stk = (None, stk)"
      by (subst gfr_loop.simps) (simp add: k)
    with run assms(1) have "escalate env ext existing st = (''Unsorted_Agent_Failed'', stk)"
      by (simp add: escalate_def get_folder_recommendation_def)
    with sel k show ?thesis by simp
  next
    case True
    have idx: "length (calls stk) = length (calls st) + k" by (simp add: sel)
    from True assms(4) consider
        (other) "ext_agent env (length (calls stk)) ext existing = OtherError"
      | (empty) b where "ext_agent env (length (calls stk)) ext existing = Reply ([], b)"
      unfolding idx by blast
    then show ?thesis
    proof cases
      case other
      let ?st' = "log_message ExtAgentUnexpected (record_call (ExtCall ext) stk)"
      have "gfr_loop env ext existing k stk = (None, ?st')"
        using True other by (subst gfr_loop.simps) simp
      with run assms(1) have "escalate env ext existing st = (''Unsorted_Agent_Failed'', ?st')"
        by (simp add: escalate_def get_folder_recommendation_def)
      moreover have "calls ?st' = calls st @ replicate (min (k + 1) MAX_RETRIES) (ExtCall ext)"
        using True by (simp add: sel min_def replicate_append_same)
      moreover have "slept ?st' = slept st + k * RETRY_DELAY" by (simp add: sel)
      moreover have "frame st ?st'" using sel(3) by (simp add: frame_def)
      ultimately show ?thesis by blast
    next
      case empty
      let ?st' = "record_call (ExtCall ext) stk"
      have "gfr_loop env ext existing k stk = (Some ([], b), ?st')"
        using True empty by (subst gfr_loop.simps) simp
      with run assms(1) have "escalate env ext existing st = (''Unsorted_Agent_Failed'', ?st')"
        by (simp add: escalate_def get_folder_recommendation_def)
      moreover have "calls ?st' = calls st @ replicate (min (k + 1) MAX_RETRIES) (ExtCall ext)"
        using True by (simp add: sel min_def replicate_append_same)
      moreover have "slept ?st' = slept st + k * RETRY_DELAY" by (simp add: sel)
      moreover have "frame st ?st'" using sel(3) by (simp add: frame_def)
      ultimately show ?thesis by blast
    qed
  qed
qed

text \<open>Without an oracle client nothing is requested and the fallback applies at once.\<close>

lemma escalate_without_client:
  "\<not> client env \<Longrightarrow> escalate env ext existing st = (''Unsorted_Agent_Failed'', st)"
  by (simp add: escalate_def get_folder_recommendation_def)

text \<open>
  C8. A file whose extension has no rule, with the oracle client present: when the first
  \<open>k\<close> answers are API errors and the next one, if the limit \<open>MAX_RETRIES\<close> leaves room
  for it, is another exception or a recommendation with an empty folder name, then the
  oracle is asked \<open>min (k + 1) MAX_RETRIES\<close> times, each API error is followed by a pause
  of \<open>RETRY_DELAY\<close> seconds, nothing is learnt, and the file goes to
  \<open>Unsorted_Agent_Failed\<close>.
\<close>

theorem escalation_retries_then_falls_back:
  assumes "rule_match (EXT_MAP st) (lower (suffix (e_name item))) = None"
    and "client env"
    and "k \<le> MAX_RETRIES"
    and "\<forall>i<k. ext_agent env (length (calls st) + i) (lower (suffix (e_name item))) existing = ApiError"
    and "k < MAX_RETRIES \<longrightarrow>
           ext_agent env (length (calls st) + k) (lower (suffix (e_name item))) existing = OtherError
           \<or> (\<exists>b. ext_agent env (length (calls st) + k) (lower (suffix (e_name item))) existing
                    = Reply ([], b))"
  shows "\<exists>st'. classify_and_move env existing item st
                 = final_move env item (Name ''Unsorted_Agent_Failed'') st'
               \<and> calls st' = calls st @ replicate (min (k + 1) MAX_RETRIES)
                                          (ExtCall (lower (suffix (e_name item))))
               \<and> slept st' = slept st + k * RETRY_DELAY
               \<and> frame st st'"
proof -
  let ?st = "log_message (Processing (e_name item)) st"
  let ?ext = "lower (suffix (e_name item))"
  have c: "calls ?st = calls st" by simp
  from escalate_fallback [of env k ?st ?ext existing] assms(2-5)
  obtain st' where e: "escalate env ?ext existing ?st = (''Unsorted_Agent_Failed'', st')"
    and p: "calls st' = calls st @ replicate (min (k + 1) MAX_RETRIES) (ExtCall ?ext)"
      "slept st' = slept st + k * RETRY_DELAY" "frame ?st st'"
    unfolding c by auto
  have "classify_and_move env existing item st
          = final_move env item (Name ''Unsorted_Agent_Failed'') st'"
    using assms(1) e by (simp add: classify_and_move_def Let_def)
  moreover have "frame st st'" using p(3) by (simp add: frame_def)
  ultimately show ?thesis using p(1,2) by blast
qed

text \<open>Three API errors in a row; and one API error followed by another exception.\<close>

theorem escalation_retries_then_falls_back_witness:
  "(\<exists>st'. classify_and_move (scenario [] ext_down write_ok) (existing_categories_of default_map)
            (file_entry ''foo.xyz'' 0) loaded
          = final_move (scenario [] ext_down write_ok) (file_entry ''foo.xyz'' 0)
              (Name ''Unsorted_Agent_Failed'') st'
        \<and> calls st' = [ExtCall ''.xyz'', ExtCall ''.xyz'', ExtCall ''.xyz'']
        \<and> slept st' = 30)
   \<and> (\<exists>st'. classify_and_move (scenario [] ext_broken write_ok) (existing_categories_of default_map)
            (file_entry ''foo.xyz'' 0) loaded
          = final_move (scenario [] ext_broken write_ok) (file_entry ''foo.xyz'' 0)
              (Name ''Unsorted_Agent_Failed'') st'
        \<and> calls st' = [ExtCall ''.xyz'', ExtCall ''.xyz'']
        \<and> slept st' = 10)"
proof -
  let ?item = "file_entry ''foo.xyz'' 0"
  let ?ex = "existing_categories_of default_map"
  have x: "lower (suffix (e_name ?item)) = ''.xyz''" by code_simp
  have r: "rule_match (EXT_MAP loaded) (lower (suffix (e_name ?item))) = None" by code_simp
  have l: "calls loaded = []" "slept loaded = 0" by (simp_all add: loaded_def init_state_def)
  have c: "client (scenario [] ext_down write_ok)" "client (scenario [] ext_broken write_ok)"
    by (simp_all add: scenario_def)
  have a3: "\<forall>i<3. ext_agent (scenario [] ext_down write_ok) (length (calls loaded) + i)
               (lower (suffix (e_name ?item))) ?ex = ApiError"
    by (simp add: scenario_def ext_down_def)
  have a1: "\<forall>i<1. ext_agent (scenario [] ext_broken write_ok) (length (calls loaded) + i)
               (lower (suffix (e_name ?item))) ?ex = ApiError"
    by (simp add: scenario_def ext_broken_def l)
  have o1: "1 < MAX_RETRIES \<longrightarrow>
      ext_agent (scenario [] ext_broken write_ok) (length (calls loaded) + 1)
        (lower (suffix (e_name ?item))) ?ex = OtherError
      \<or> (\<exists>b. ext_agent (scenario [] ext_broken write_ok) (length (calls loaded) + 1)
        (lower (suffix (e_name ?item))) ?ex = Reply ([], b))"
    by (simp add: scenario_def ext_broken_def l)
  have first: "\<exists>st'. classify_and_move (scenario [] ext_down write_ok) ?ex ?item loaded
          = final_move (scenario [] ext_down write_ok) ?item (Name ''Unsorted_Agent_Failed'') st'
        \<and> calls st' = [ExtCall ''.xyz'', ExtCall ''.xyz'', ExtCall ''.xyz'']
        \<and> slept st' = 30"
    using escalation_retries_then_falls_back [OF r c(1), of 3 ?ex] a3
    by (simp add: MAX_RETRIES_def RETRY_DELAY_def l x numeral_3_eq_3) blast
  have second: "\<exists>st'. classify_and_move (scenario [] ext_broken write_ok) ?ex ?item loaded
          = final_move (scenario [] ext_broken write_ok) ?item (Name ''Unsorted_Agent_Failed'') st'
        \<and> calls st' = [ExtCall ''.xyz'', ExtCall ''.xyz'']
        \<and> slept st' = 10"
    using escalation_retries_then_falls_back [OF r c(2), of 1 ?ex] a1 o1
    by (simp add: MAX_RETRIES_def RETRY_DELAY_def l x numeral_2_eq_2) blast
  from first second show ?thesis by (rule conjI)
qed

section \<open>The organize run: what is returned\<close>













section \<open>The organize run: a mapping that could not be saved\<close>












section \<open>The image renamer never repairs\<close>

text \<open>
  Whatever the folder and the oracle do, \<open>execute_image_renamer\<close> sends no single-image
  request, and its loop only ever appends to the retry queue: the failing input of C2 is
  not a special case.
\<close>

lemma only_queues_refl: "only_queues st st"
  by (simp add: only_queues_def)

lemma only_queues_trans: "only_queues a b \<Longrightarrow> only_queues b c \<Longrightarrow> only_queues a c"
  by (auto simp: only_queues_def)

lemma only_queues_steps:
  "only_queues st (r_log ev st)" "only_queues st (r_sleep n st)"
  "only_queues st (r_record_call (BatchCall names) st)" "only_queues st (queue_for_retry names st)"
  "only_queues st (st\<lparr>folder := d, batch_processed_count := k\<rparr>)"
  by (simp_all add: only_queues_def r_log_def r_sleep_def r_record_call_def queue_for_retry_def)

lemma batch_loop_only_queues: "only_queues st (snd (batch_loop env names retries st))"
proof (induction env names retries st rule: batch_loop.induct)
  case (1 env names retries st)
  let ?s1 = "r_log (ImageAgentError (retries + 1)) (r_record_call (BatchCall names) st)"
  have s1: "only_queues st ?s1"
    by (rule only_queues_trans [OF only_queues_steps(3) only_queues_steps(1)])
  have s2: "only_queues st (r_sleep RETRY_DELAY ?s1)"
    by (rule only_queues_trans [OF s1 only_queues_steps(2)])
  show ?case
  proof (cases "retries < MAX_RETRIES")
    case False
    then show ?thesis by (subst batch_loop.simps) (simp add: only_queues_refl)
  next
    case True
    show ?thesis
    proof (cases "batch_agent env (length (r_calls st)) names")
      case (Reply descriptions)
      with True show ?thesis by (subst batch_loop.simps) (simp add: only_queues_steps)
    next
      case ApiError
      show ?thesis
      proof (cases "retries + 1 < MAX_RETRIES")
        case more: True
        from "1.IH"(1) [OF True ApiError more] s2
        have "only_queues st (snd (batch_loop env names (retries + 1) (r_sleep RETRY_DELAY ?s1)))"
          by (rule only_queues_trans [rotated])
        with True ApiError more show ?thesis by (subst batch_loop.simps) simp
      next
        case False
        with True ApiError s1 show ?thesis by (subst batch_loop.simps) simp
      qed
    next
      case OtherError
      show ?thesis
      proof (cases "retries + 1 < MAX_RETRIES")
        case more: True
        from "1.IH"(2) [OF True OtherError more] s2
        have "only_queues st (snd (batch_loop env names (retries + 1) (r_sleep RETRY_DELAY ?s1)))"
          by (rule only_queues_trans [rotated])
        with True OtherError more show ?thesis by (subst batch_loop.simps) simp
      next
        case False
        with True OtherError s1 show ?thesis by (subst batch_loop.simps) simp
      qed
    qed
  qed
qed

lemma apply_results_only_queues: "only_queues st (apply_results env result_map names st)"
proof (induction names arbitrary: st)
  case Nil
  show ?case by (simp add: only_queues_refl)
next
  case (Cons n names)
  let ?s = "case map_of result_map n of
          None \<Rightarrow> queue_for_retry [n] st
        | Some short_title \<Rightarrow>
            (let ext = splitext_ext n;
                 new_base_name = cleaned_title short_title @ PROCESSED_SUFFIX;
                 new_filename = new_base_name @ ext
             in case os_rename env n new_filename (folder st) of
                  Some d \<Rightarrow> st\<lparr>folder := d, batch_processed_count := batch_processed_count st + 1\<rparr>
                | None \<Rightarrow> queue_for_retry [n] st)"
  have "only_queues st ?s"
    by (simp add: Let_def only_queues_steps split: option.splits)
  from this Cons.IH [of ?s] have "only_queues st (apply_results env result_map names ?s)"
    by (rule only_queues_trans)
  then show ?case by simp
qed

lemma process_batch_only_queues: "only_queues st (process_batch env current st)"
proof -
  let ?s1 = "queue_for_retry (filter (\<lambda>n. \<not> can_open (folder st) n) current) st"
  let ?b = "filter (can_open (folder st)) current"
  have s1: "only_queues st ?s1" by (rule only_queues_steps)
  obtain r s2 where g: "get_batch_info_from_images_renamer env ?b ?s1 = (r, s2)"
    by (cases "get_batch_info_from_images_renamer env ?b ?s1")
  have "only_queues ?s1 s2"
    using g batch_loop_only_queues [of ?s1 env ?b 0]
    by (auto simp: get_batch_info_from_images_renamer_def only_queues_refl split: if_splits)
  with s1 have s2: "only_queues st s2" by (rule only_queues_trans)
  have q: "only_queues st (queue_for_retry current s2)"
    by (rule only_queues_trans [OF s2 only_queues_steps(4)])
  have a: "only_queues st (apply_results env rm ?b s2)" for rm
    by (rule only_queues_trans [OF s2 apply_results_only_queues])
  show ?thesis
    using s1 q a g by (cases r) (simp_all add: process_batch_def Let_def)
qed

lemma ren_loop_only_queues: "only_queues st (ren_loop env use_delay all_files file_index st)"
proof (induction env use_delay all_files file_index st rule: ren_loop.induct)
  case (1 env use_delay all_files file_index st)
  show ?case
  proof (cases "file_index < length all_files")
    case False
    then show ?thesis by (subst ren_loop.simps) (simp add: only_queues_refl)
  next
    case True
    let ?cur = "take BATCH_SIZE (drop file_index all_files)"
    let ?s1 = "process_batch env ?cur st"
    let ?s2 = "if use_delay \<and> file_index + BATCH_SIZE < length all_files then r_sleep 5 ?s1 else ?s1"
    have "only_queues st ?s1" by (rule process_batch_only_queues)
    moreover have "only_queues ?s1 ?s2" by (simp add: only_queues_steps only_queues_refl)
    ultimately have "only_queues st ?s2" by (rule only_queues_trans)
    moreover have "only_queues ?s2 (ren_loop env use_delay all_files (file_index + BATCH_SIZE) ?s2)"
      by (rule "1.IH" [OF True refl refl refl])
    ultimately have "only_queues st (ren_loop env use_delay all_files (file_index + BATCH_SIZE) ?s2)"
      by (rule only_queues_trans)
    with True show ?thesis by (subst ren_loop.simps) (simp add: Let_def)
  qed
qed

lemma renamer_never_repairs:
  "filter is_single_call (r_calls (snd (execute_image_renamer env use_delay st)))
     = filter is_single_call (r_calls st)"
proof (cases "folder_is_dir env")
  case False
  then show ?thesis by (simp add: execute_image_renamer_def r_log_def)
next
  case True
  let ?all = "map fst (filter eligible (folder (r_log RenamerStart st)))"
  let ?s1 = "r_log (RenamerFound (length ?all))
               ((r_log RenamerStart st)\<lparr>batch_processed_count := 0, failed_files_for_retry := []\<rparr>)"
  from ren_loop_only_queues [of ?s1 env use_delay ?all 0]
  have "filter is_single_call (r_calls (ren_loop env use_delay ?all 0 ?s1))
          = filter is_single_call (r_calls st)"
    by (simp add: only_queues_def r_log_def)
  with True show ?thesis by (simp add: execute_image_renamer_def Let_def r_log_def)
qed

lemma renamer_keeps_queue:
  "\<exists>q. failed_files_for_retry (ren_loop env use_delay all_files file_index st)
         = failed_files_for_retry st @ q"
  using ren_loop_only_queues [of st env use_delay all_files file_index]
  by (simp add: only_queues_def)

section \<open>The single-file retry: restoring the name\<close>

lemma r_ops_sel [simp]:
  "folder (r_log ev st) = folder st" "r_logs (r_log ev st) = r_logs st @ [ev]"
  "r_calls (r_log ev st) = r_calls st"
  "folder (r_record_call c st) = folder st" "r_logs (r_record_call c st) = r_logs st"
  "r_calls (r_record_call c st) = r_calls st @ [c]"
  by (simp_all add: r_log_def r_record_call_def)








end
